theory Spec2Isabelle
  imports Complex_Main "HOL-Library.Sublist"
begin

section \<open>The portfolio dashboard script \<open>panel_code.py\<close>\<close>

text \<open>
  The script keeps an editable holdings table, a counter widget \<open>patches\<close> and two
  chart functions. Numbers of the data frames (prices, market values, quantities typed
  into the table) are modelled as real numbers, standing for the finite values of
  pandas' float64 columns; \<open>*\<close> and \<open>sum_list\<close> stand for the product and the column
  sum as the script computes them. The properties compare a cell or a title with the
  very product or sum it was made from, never two differently computed numbers.
  Every exception the script can raise is a value of \<open>py_error\<close>.
\<close>

datatype py_error = KeyError | IndexError | TypeError

subsection \<open>Colour constants and the style of an action cell\<close>

definition DARK_BG :: string where "DARK_BG = ''#1a1a1a''"
definition DARK_BORDER :: string where "DARK_BORDER = ''#404040''"
definition DARK_TEXT :: string where "DARK_TEXT = ''#ffffff''"
definition DARK_TEXT_SECONDARY :: string where "DARK_TEXT_SECONDARY = ''#b0b0b0''"
definition RED :: string where "RED = ''#D94467''"
definition GREEN :: string where "GREEN = ''#5AD534''"

text \<open>A dictionary read \<open>d[k]\<close> raises \<open>KeyError\<close> on a missing key.\<close>

definition getitem :: "('k \<rightharpoonup> 'v) \<Rightarrow> 'k \<Rightarrow> py_error + 'v" where
  "getitem d k = (case d k of None \<Rightarrow> Inl KeyError | Some v \<Rightarrow> Inr v)"

text \<open>The default of the parameter \<open>colors\<close>: \<open>{'buy': GREEN, 'sell': RED}\<close>.\<close>

definition action_colors :: "string \<rightharpoonup> string" where
  "action_colors = [''buy'' \<mapsto> GREEN, ''sell'' \<mapsto> RED]"

text \<open>
  \<open>return f'color: {colors[value]}' if value in colors else ''\<close>: the membership test
  comes first, the subscript is evaluated only in its positive branch.
\<close>

definition style_of_action_cell :: "string \<Rightarrow> (string \<rightharpoonup> string) \<Rightarrow> py_error + string" where
  "style_of_action_cell v colors =
     (if colors v \<noteq> None
      then (case getitem colors v of
              Inl e \<Rightarrow> Inl e
            | Inr c \<Rightarrow> Inr (''color: '' @ c))
      else Inr '''')"

subsection \<open>Historical data and the last close\<close>

text \<open>
  \<open>historical_data\<close> is the CSV read with the index \<open>(Ticker, Date)\<close>: a sequence of rows
  in file order. Dates are day numbers.
\<close>

record bar =
  Ticker :: string
  Date :: nat
  Open :: real
  High :: real
  Low :: real
  Close :: real

text \<open>
  \<open>data.loc[ticker]\<close> on the two-level index: the rows of that ticker, in frame order;
  \<open>KeyError\<close> when the ticker is not in the index.
\<close>

definition loc_ticker :: "string \<Rightarrow> bar list \<Rightarrow> py_error + bar list" where
  "loc_ticker t data =
     (let rows = filter (\<lambda>b. Ticker b = t) data
      in if rows = [] then Inl KeyError else Inr rows)"

text \<open>\<open>series.iloc[-1]\<close>: the last element, \<open>IndexError\<close> on an empty series.\<close>

definition iloc_last :: "'a list \<Rightarrow> py_error + 'a" where
  "iloc_last xs = (if xs = [] then Inl IndexError else Inr (last xs))"

text \<open>\<open>return data.loc[ticker]["Close"].iloc[-1]\<close>\<close>

definition last_close :: "string \<Rightarrow> bar list \<Rightarrow> py_error + real" where
  "last_close t data =
     (case loc_ticker t data of
        Inl e \<Rightarrow> Inl e
      | Inr rows \<Rightarrow> iloc_last (map Close rows))"

subsection \<open>The holdings table, edit events and the counter widget\<close>

text \<open>
  One row of \<open>summary_data\<close>, the frame behind the table widget; the fields are its
  columns. The frame keeps its default index, so a row's label is its position.
\<close>

record position =
  ticker :: string
  company :: string
  info :: string
  quantity :: real
  price :: real
  "value" :: real
  action :: string
  "notes" :: string

text \<open>
  \<open>df.loc[i, column]\<close> reads by label: on the default index the labels are
  \<open>0 .. len(df) - 1\<close>, and any other label, a negative one too, raises \<open>KeyError\<close>.
\<close>

definition loc_row :: "int \<Rightarrow> 'a list \<Rightarrow> py_error + 'a" where
  "loc_row i df = (if 0 \<le> i \<and> i < int (length df) then Inr (df ! nat i) else Inl KeyError)"

text \<open>
  The event the table passes to its edit callbacks: attributes \<open>event.row\<close>,
  \<open>event.column\<close> and \<open>event.value\<close>. The new cell content is a number (the quantity
  editor) or a string (the action and notes editors).
\<close>

datatype cell = Number real | Text string

record event =
  row :: int
  column :: string
  new_value :: cell

text \<open>
  The mutable state the handler works on: the frame \<open>summary_table.value\<close>, the counter
  \<open>patches.value\<close>, and the cells written through \<open>table.patch\<close>, oldest first, as
  (column, row, value).
\<close>

record app =
  summary_table :: "position list"
  patches :: int
  writes :: "(string \<times> int \<times> real) list"

text \<open>
  \<open>table.patch({"value": [(row, v), ...]})\<close>: each pair overwrites one cell of the value
  column, in order. A pair whose row is not in the frame raises \<open>KeyError\<close>; the pairs
  before it have been written by then, so the error comes with the state it leaves.
\<close>

definition patch_cell :: "int \<Rightarrow> real \<Rightarrow> app \<Rightarrow> py_error + app" where
  "patch_cell r v s =
     (if 0 \<le> r \<and> r < int (length (summary_table s))
      then Inr (s\<lparr>summary_table :=
                    (summary_table s)[nat r := (summary_table s ! nat r)\<lparr>value := v\<rparr>],
                  writes := writes s @ [(''value'', r, v)]\<rparr>)
      else Inl KeyError)"

fun patch_value :: "(int \<times> real) list \<Rightarrow> app \<Rightarrow> py_error \<times> app + app" where
  "patch_value [] s = Inr s"
| "patch_value ((r, v) # ps) s =
     (case patch_cell r v s of
        Inl e \<Rightarrow> Inl (e, s)
      | Inr s' \<Rightarrow> patch_value ps s')"

text \<open>\<open>quantity * price\<close>, with \<open>price\<close> a float: a string operand raises \<open>TypeError\<close>.\<close>

fun times_price :: "cell \<Rightarrow> real \<Rightarrow> py_error + real" where
  "times_price (Number q) p = Inr (q * p)"
| "times_price (Text t) p = Inl TypeError"

text \<open>
  \<^verbatim>\<open>
  def handle_cell_edit(event, table=summary_table):
      row = event.row
      column = event.column
      if column == "quantity":
          quantity = event.value
          price = summary_table.value.loc[row, "price"]
          value = quantity * price
          table.patch({"value": [(row, value)]})

          patches.value += 1
  \<close>
  The read of the price and the product come before the first write, and the patch is
  given one pair, so that it can only raise before writing: \<open>Inl\<close> stands for an
  exception that leaves the state as it was.
\<close>

definition handle_cell_edit :: "event \<Rightarrow> app \<Rightarrow> py_error + app" where
  "handle_cell_edit ev s =
     (if column ev = ''quantity''
      then (case loc_row (row ev) (summary_table s) of
              Inl e \<Rightarrow> Inl e
            | Inr p \<Rightarrow>
                (case times_price (new_value ev) (price p) of
                   Inl e \<Rightarrow> Inl e
                 | Inr v \<Rightarrow>
                     (case patch_value [(row ev, v)] s of
                        Inl (e, t) \<Rightarrow> Inl e
                      | Inr s' \<Rightarrow> Inr (s'\<lparr>patches := patches s' + 1\<rparr>))))
      else Inr s)"

text \<open>
  \<open>summary_table.on_edit(handle_cell_edit)\<close>: the table calls the handler once for each
  edit event, in order; an event whose handler raises changes nothing and the next one
  is served.
\<close>

fun on_edit :: "event list \<Rightarrow> app \<Rightarrow> app" where
  "on_edit [] s = s"
| "on_edit (ev # evs) s =
     (case handle_cell_edit ev s of
        Inl e \<Rightarrow> on_edit evs s
      | Inr s' \<Rightarrow> on_edit evs s')"

text \<open>
  The quantity edits the handler serves to its end on a frame of \<open>n\<close> rows: the row is
  in the frame and the new quantity is a number.
\<close>

definition served_quantity_edit :: "nat \<Rightarrow> event \<Rightarrow> bool" where
  "served_quantity_edit n ev =
     (column ev = ''quantity'' \<and> 0 \<le> row ev \<and> row ev < int n \<and>
      (case new_value ev of Number q \<Rightarrow> True | Text t \<Rightarrow> False))"

text \<open>
  The table widget is not part of the script: \<open>on_edit\<close> above serves the edits it is
  given and nothing else. To examine re-entry the properties also use a host that is
  as unfavourable as can be: after each call of the handler it presents every cell the
  call has patched to the handler again, as an edit event of the patched column, behind
  the events still pending. Its termination is proved, not assumed: an event weighs 2
  when its column is \<open>quantity\<close> and 1 otherwise, and each call takes more weight off
  the pending events than the cells it patches put back.
\<close>

definition announce :: "string \<times> int \<times> real \<Rightarrow> event" where
  "announce w = (case w of (c, r, v) \<Rightarrow> \<lparr>row = r, column = c, new_value = Number v\<rparr>)"

definition edit_weight :: "event \<Rightarrow> nat" where
  "edit_weight ev = (if column ev = ''quantity'' then 2 else 1)"

function serve_reentrant :: "event list \<Rightarrow> app \<Rightarrow> app" where
  "serve_reentrant [] s = s"
| "serve_reentrant (ev # pending) s =
     (case handle_cell_edit ev s of
        Inl e \<Rightarrow> serve_reentrant pending s
      | Inr s' \<Rightarrow>
          serve_reentrant (pending @ map announce (drop (length (writes s)) (writes s'))) s')"
  by pat_completeness auto
termination
proof (relation "measure (\<lambda>(pending, s). sum_list (map edit_weight pending))")
  show "wf (measure (\<lambda>(pending, s). sum_list (map edit_weight pending)))"
    by simp
next
  fix ev :: event and pending :: "event list" and s :: app and e :: py_error
  show "((pending, s), ev # pending, s)
          \<in> measure (\<lambda>(pending, s). sum_list (map edit_weight pending))"
    by (simp add: edit_weight_def)
next
  fix ev :: event and pending :: "event list" and s s' :: app
  assume "handle_cell_edit ev s = Inr s'"
  then have "sum_list (map edit_weight (map announce (drop (length (writes s)) (writes s'))))
               < edit_weight ev"
    by (auto simp: handle_cell_edit_def loc_row_def patch_cell_def edit_weight_def announce_def
        split: if_splits sum.splits cell.splits prod.splits)
  then show "((pending @ map announce (drop (length (writes s)) (writes s')), s'), ev # pending, s)
          \<in> measure (\<lambda>(pending, s). sum_list (map edit_weight pending))"
    by simp
qed

text \<open>
  Replaying a list of written cells on a frame: each entry of the value column
  overwrites its cell. The properties use it to tie the list \<open>writes\<close> to the frame.
\<close>

definition apply_write :: "position list \<Rightarrow> string \<times> int \<times> real \<Rightarrow> position list" where
  "apply_write df w =
     (case w of (c, r, v) \<Rightarrow>
        if c = ''value'' \<and> 0 \<le> r \<and> r < int (length df)
        then df[nat r := (df ! nat r)\<lparr>value := v\<rparr>]
        else df)"

definition replay :: "(string \<times> int \<times> real) list \<Rightarrow> position list \<Rightarrow> position list" where
  "replay ws df = foldl apply_write df ws"

subsection \<open>Figures\<close>

datatype trace =
    Candlestick "nat list" "real list" "real list" "real list" "real list"
  | Pie "string list" "real list" real

record axis =
  gridcolor :: string
  zerolinecolor :: string
  tickfont_color :: string

record layout =
  title_text :: string
  template :: string
  autosize :: bool
  plot_bgcolor :: string
  paper_bgcolor :: string
  font_color :: string
  title_font_color :: "string option"
  xaxis :: "axis option"
  yaxis :: "axis option"

record figure =
  trace :: trace
  layout :: layout

subsection \<open>The candlestick chart\<close>

definition dark_axis :: axis where
  "dark_axis = \<lparr>gridcolor = DARK_BORDER, zerolinecolor = DARK_BORDER,
                 tickfont_color = DARK_TEXT_SECONDARY\<rparr>"

text \<open>
  \<^verbatim>\<open>
  def candlestick(selection=[], data=summary_data):
      if not selection:
          ticker = "AAPL"
          company = "Apple"
      else:
          index = selection[0]
          ticker = data.loc[index, "ticker"]
          company = data.loc[index, "company"]
      dff_ticker_hist = historical_data.loc[ticker].reset_index()
      ...
      fig.update_layout(title_text=f"{ticker} {company} Daily Price", ...)
  \<close>
  The global \<open>historical_data\<close> is the parameter \<open>hist\<close>.
\<close>

definition candlestick :: "int list \<Rightarrow> position list \<Rightarrow> bar list \<Rightarrow> py_error + figure" where
  "candlestick selection data hist =
     (case (if selection = [] then Inr (''AAPL'', ''Apple'')
            else (case loc_row (hd selection) data of
                    Inl e \<Rightarrow> Inl e
                  | Inr p \<Rightarrow> Inr (ticker p, company p))) of
        Inl e \<Rightarrow> Inl e
      | Inr (tk, co) \<Rightarrow>
          (case loc_ticker tk hist of
             Inl e \<Rightarrow> Inl e
           | Inr dff \<Rightarrow>
               Inr \<lparr>trace = Candlestick (map Date dff) (map Open dff) (map High dff)
                                        (map Low dff) (map Close dff),
                    layout = \<lparr>title_text = tk @ '' '' @ co @ '' Daily Price'',
                               template = ''plotly_dark'',
                               autosize = True,
                               plot_bgcolor = DARK_BG,
                               paper_bgcolor = DARK_BG,
                               font_color = DARK_TEXT,
                               title_font_color = None,
                               xaxis = Some dark_axis,
                               yaxis = Some dark_axis\<rparr>\<rparr>))"

subsection \<open>The portfolio distribution chart\<close>

text \<open>
  The format \<open>{portfolio_total:,.0f}\<close>: the sign, then the magnitude rounded to an
  integer, a tie going to the even neighbour, in decimal digits grouped by thousands.
\<close>

definition round_half_even :: "real \<Rightarrow> int" where
  "round_half_even x =
     (let f = \<lfloor>x\<rfloor>; d = x - of_int f
      in if d < 1 / 2 then f
         else if 1 / 2 < d then f + 1
         else if even f then f else f + 1)"

definition digit :: "nat \<Rightarrow> char" where
  "digit d = ''0123456789'' ! d"

fun digits :: "nat \<Rightarrow> string" where
  "digits n = (if n < 10 then [digit n] else digits (n div 10) @ [digit (n mod 10)])"

definition pad3 :: "nat \<Rightarrow> string" where
  "pad3 n = [digit (n div 100), digit (n div 10 mod 10), digit (n mod 10)]"

fun group_thousands :: "nat \<Rightarrow> string" where
  "group_thousands n =
     (if n < 1000 then digits n
      else group_thousands (n div 1000) @ '','' @ pad3 (n mod 1000))"

definition format_comma_0f :: "real \<Rightarrow> string" where
  "format_comma_0f x =
     (if x < 0 then ''-'' else '''') @ group_thousands (nat (round_half_even \<bar>x\<bar>))"

text \<open>
  The number a formatted total shows to its reader: the commas are skipped, the digits
  are read in base ten, and a leading minus sign negates. It is not part of the
  script; the properties use it to say what a title displays.
\<close>

definition digit_value :: "char \<Rightarrow> nat" where
  "digit_value c = of_char c - 48"

definition read_digits :: "string \<Rightarrow> nat" where
  "read_digits cs = foldl (\<lambda>a c. 10 * a + digit_value c) 0 cs"

definition displayed_number :: "string \<Rightarrow> int" where
  "displayed_number str =
     (case filter (\<lambda>c. c \<noteq> CHR '','') str of
        [] \<Rightarrow> 0
      | c # cs \<Rightarrow> if c = CHR ''-'' then - int (read_digits cs) else int (read_digits (c # cs)))"

declare digits.simps [simp del]
declare group_thousands.simps [simp del]

text \<open>
  \<^verbatim>\<open>
  def portfolio_distribution(patches=0):
      data = summary_table.value
      portfolio_total = data["value"].sum()
      fig = px.pie(data, values="value", names="ticker", hole=0.3,
                   title=f"Portfolio Total $ {portfolio_total:,.0f}",
                   template="plotly_dark")
      fig.update_layout(plot_bgcolor=DARK_BG, paper_bgcolor=DARK_BG,
                        font=dict(color=DARK_TEXT), title_font_color=DARK_TEXT)
      fig.layout.autosize = True
      return fig
  \<close>
  The pie trace carries one label and one value for each row; the shares are computed
  by whoever draws the figure, not here.
\<close>

definition portfolio_distribution :: "int \<Rightarrow> app \<Rightarrow> figure" where
  "portfolio_distribution p s =
     (let data = summary_table s;
          portfolio_total = sum_list (map value data)
      in \<lparr>trace = Pie (map ticker data) (map value data) (3 / 10),
           layout = \<lparr>title_text = ''Portfolio Total $ '' @ format_comma_0f portfolio_total,
                      template = ''plotly_dark'',
                      autosize = True,
                      plot_bgcolor = DARK_BG,
                      paper_bgcolor = DARK_BG,
                      font_color = DARK_TEXT,
                      title_font_color = Some DARK_TEXT,
                      xaxis = None,
                      yaxis = None\<rparr>\<rparr>)"


subsection \<open>Sample data\<close>

definition sample_history :: "bar list" where
  "sample_history =
     [\<lparr>Ticker = ''AAPL'', Date = 1, Open = 10, High = 12, Low = 9, Close = 11\<rparr>,
      \<lparr>Ticker = ''MSFT'', Date = 1, Open = 20, High = 22, Low = 19, Close = 21\<rparr>,
      \<lparr>Ticker = ''AAPL'', Date = 2, Open = 11, High = 14, Low = 10, Close = 27 / 2\<rparr>,
      \<lparr>Ticker = ''MSFT'', Date = 2, Open = 21, High = 23, Low = 20, Close = 45 / 2\<rparr>]"

definition sample_table :: "position list" where
  "sample_table =
     [\<lparr>ticker = ''AAPL'', company = ''Apple'', info = '''', quantity = 75,
       price = 27 / 2, value = 2025 / 2, action = ''buy'', notes = ''''\<rparr>,
      \<lparr>ticker = ''MSFT'', company = ''Microsoft'', info = '''', quantity = 40,
       price = 45 / 2, value = 900, action = ''sell'', notes = ''''\<rparr>]"

definition sample_app :: app where
  "sample_app = \<lparr>summary_table = sample_table, patches = 0, writes = []\<rparr>"

definition sample_quantity_edit :: event where
  "sample_quantity_edit = \<lparr>row = 0, column = ''quantity'', new_value = Number 100\<rparr>"

definition sample_notes_edit :: event where
  "sample_notes_edit = \<lparr>row = 1, column = ''notes'', new_value = Text ''review''\<rparr>"

definition sample_edits :: "event list" where
  "sample_edits =
     [sample_quantity_edit,
      sample_notes_edit,
      \<lparr>row = 7, column = ''quantity'', new_value = Number 5\<rparr>,
      \<lparr>row = 1, column = ''quantity'', new_value = Number 10\<rparr>,
      \<lparr>row = 0, column = ''action'', new_value = Text ''hold''\<rparr>]"




section \<open>Properties\<close>

subsection \<open>The style of an action cell\<close>

lemma style_guarded:
  "style_of_action_cell v colors =
     (case colors v of None \<Rightarrow> Inr '''' | Some c \<Rightarrow> Inr (''color: '' @ c))"
  by (cases "colors v") (simp_all add: style_of_action_cell_def getitem_def)

text \<open>
  C10. \<open>style_of_action_cell\<close> with its default colours returns a string for every
  string input and never raises: the green style for \<open>buy\<close>, the red style for
  \<open>sell\<close>, and the empty string for every other input, \<open>hold\<close> among them. The
  subscript alone would raise \<open>KeyError\<close> on \<open>hold\<close>; it is only evaluated on a key
  the membership test has found, so with any colour dictionary at all the result is a
  string.
\<close>

theorem style_of_action_cell_total:
  "style_of_action_cell v action_colors =
     Inr (if v = ''buy'' then ''color: #5AD534''
          else if v = ''sell'' then ''color: #D94467''
          else '''')
   \<and> style_of_action_cell ''hold'' action_colors = Inr ''''
   \<and> getitem action_colors ''hold'' = Inl KeyError
   \<and> (\<exists>s. style_of_action_cell v colors = Inr s)"
proof -
  have bare: "getitem action_colors ''hold'' = Inl KeyError"
    by (simp add: getitem_def action_colors_def)
  have dflt: "style_of_action_cell v action_colors =
     Inr (if v = ''buy'' then ''color: #5AD534''
          else if v = ''sell'' then ''color: #D94467''
          else '''')"
    by (simp add: style_guarded action_colors_def GREEN_def RED_def)
  have hold: "style_of_action_cell ''hold'' action_colors = Inr ''''"
    by (simp add: style_guarded action_colors_def)
  have any: "\<exists>s. style_of_action_cell v colors = Inr s"
    by (cases "colors v") (simp_all add: style_guarded)
  from dflt hold bare any show ?thesis by blast
qed

subsection \<open>The last close\<close>

lemma loc_ticker_eq:
  "loc_ticker t data =
     (if filter (\<lambda>b. Ticker b = t) data = [] then Inl KeyError
      else Inr (filter (\<lambda>b. Ticker b = t) data))"
  by (simp add: loc_ticker_def Let_def)

lemma last_close_eq:
  "last_close t data =
     (if filter (\<lambda>b. Ticker b = t) data = [] then Inl KeyError
      else Inr (Close (last (filter (\<lambda>b. Ticker b = t) data))))"
  by (simp add: last_close_def loc_ticker_eq iloc_last_def last_map)

lemma strictly_increasing_last:
  assumes "sorted_wrt (<) (map f xs)" and "x \<in> set xs" and "x \<noteq> last xs"
  shows "f x < f (last xs)"
proof -
  from assms(2) obtain i where i: "i < length xs" "xs ! i = x"
    by (auto simp: in_set_conv_nth)
  from assms(2) have ne: "xs \<noteq> []" by auto
  then have l: "last xs = xs ! (length xs - 1)" by (simp add: last_conv_nth)
  with i assms(3) have "i \<noteq> length xs - 1" by auto
  with i have lt: "i < length xs - 1" by simp
  from ne have "length xs - 1 < length (map f xs)" by simp
  with lt have "map f xs ! i < map f xs ! (length xs - 1)"
    by (rule sorted_wrt_nth_less [OF assms(1)])
  with i l lt show ?thesis by simp
qed

text \<open>
  C8. \<open>last_close\<close> fails with \<open>KeyError\<close> when the series has no row for the
  ticker. When it has one, the result is the close of the last of the ticker's rows in
  frame order; and when the ticker's dates are strictly increasing, every other row of
  the ticker is strictly older, so that close is the most recent one.
\<close>

theorem last_close_most_recent:
  "((\<forall>b \<in> set data. Ticker b \<noteq> t) \<longrightarrow> last_close t data = Inl KeyError)
   \<and> ((\<exists>b \<in> set data. Ticker b = t) \<longrightarrow>
        (\<exists>r \<in> set data. Ticker r = t \<and> last_close t data = Inr (Close r)
           \<and> r = last (filter (\<lambda>b. Ticker b = t) data)
           \<and> (sorted_wrt (<) (map Date (filter (\<lambda>b. Ticker b = t) data)) \<longrightarrow>
                (\<forall>b \<in> set data. Ticker b = t \<and> b \<noteq> r \<longrightarrow> Date b < Date r))))"
proof (intro conjI impI)
  assume "\<forall>b \<in> set data. Ticker b \<noteq> t"
  then have "filter (\<lambda>b. Ticker b = t) data = []"
    by (simp add: filter_empty_conv)
  then show "last_close t data = Inl KeyError"
    by (simp add: last_close_eq)
next
  let ?rows = "filter (\<lambda>b. Ticker b = t) data"
  assume "\<exists>b \<in> set data. Ticker b = t"
  then have ne: "?rows \<noteq> []"
    by (simp add: filter_empty_conv)
  then have mem: "last ?rows \<in> set ?rows"
    by (rule last_in_set)
  have res: "last_close t data = Inr (Close (last ?rows))"
    using ne by (simp add: last_close_eq)
  have recent: "\<forall>b \<in> set data. Ticker b = t \<and> b \<noteq> last ?rows \<longrightarrow> Date b < Date (last ?rows)"
    if "sorted_wrt (<) (map Date ?rows)"
    using that strictly_increasing_last [of Date ?rows] by auto
  show "\<exists>r \<in> set data. Ticker r = t \<and> last_close t data = Inr (Close r)
           \<and> r = last ?rows
           \<and> (sorted_wrt (<) (map Date ?rows) \<longrightarrow>
                (\<forall>b \<in> set data. Ticker b = t \<and> b \<noteq> r \<longrightarrow> Date b < Date r))"
    using mem res recent by (intro bexI [of _ "last ?rows"]) auto
qed

lemma sample_rows:
  "filter (\<lambda>b. Ticker b = ''AAPL'') sample_history =
     [\<lparr>Ticker = ''AAPL'', Date = 1, Open = 10, High = 12, Low = 9, Close = 11\<rparr>,
      \<lparr>Ticker = ''AAPL'', Date = 2, Open = 11, High = 14, Low = 10, Close = 27 / 2\<rparr>]"
  by (simp add: sample_history_def)

theorem last_close_most_recent_witness:
  "last_close ''AAPL'' sample_history = Inr (27 / 2)
   \<and> last_close ''TSLA'' sample_history = Inl KeyError
   \<and> sorted_wrt (<) (map Date (filter (\<lambda>b. Ticker b = ''AAPL'') sample_history))
   \<and> Date \<lparr>Ticker = ''AAPL'', Date = 1, Open = 10, High = 12, Low = 9, Close = 11\<rparr>
       < Date (last (filter (\<lambda>b. Ticker b = ''AAPL'') sample_history))"
proof -
  have absent: "\<forall>b \<in> set sample_history. Ticker b \<noteq> ''TSLA''"
    by (simp add: sample_history_def)
  have present: "\<exists>b \<in> set sample_history. Ticker b = ''AAPL''"
    by (simp add: sample_history_def)
  have sorted: "sorted_wrt (<) (map Date (filter (\<lambda>b. Ticker b = ''AAPL'') sample_history))"
    by (simp add: sample_rows)
  from last_close_most_recent [of sample_history "''TSLA''"] absent
  have a: "last_close ''TSLA'' sample_history = Inl KeyError" by blast
  from last_close_most_recent [of sample_history "''AAPL''"] present sorted
  obtain r where r: "r = last (filter (\<lambda>b. Ticker b = ''AAPL'') sample_history)"
      "last_close ''AAPL'' sample_history = Inr (Close r)"
      "\<forall>b \<in> set sample_history. Ticker b = ''AAPL'' \<and> b \<noteq> r \<longrightarrow> Date b < Date r"
    by blast
  have b: "last_close ''AAPL'' sample_history = Inr (27 / 2)"
    using r(1,2) by (simp add: sample_rows)
  have "\<lparr>Ticker = ''AAPL'', Date = 1, Open = 10, High = 12, Low = 9, Close = 11\<rparr> \<in> set sample_history"
    by (simp add: sample_history_def)
  moreover have "\<lparr>Ticker = ''AAPL'', Date = 1, Open = 10, High = 12, Low = 9, Close = 11\<rparr> \<noteq> r"
    using r(1) by (simp add: sample_rows)
  ultimately have c: "Date \<lparr>Ticker = ''AAPL'', Date = 1, Open = 10, High = 12, Low = 9, Close = 11\<rparr> < Date r"
    using r(3) by auto
  from a b c sorted r(1) show ?thesis by simp
qed

subsection \<open>The edit handler\<close>

lemma handle_quantity_edit:
  assumes "column ev = ''quantity''" and "new_value ev = Number q"
    and "0 \<le> row ev" and "row ev < int (length (summary_table s))"
  shows "handle_cell_edit ev s =
     Inr (s\<lparr>summary_table :=
              (summary_table s)[nat (row ev) :=
                 (summary_table s ! nat (row ev))\<lparr>value := q * price (summary_table s ! nat (row ev))\<rparr>],
            writes := writes s @ [(''value'', row ev, q * price (summary_table s ! nat (row ev)))],
            patches := patches s + 1\<rparr>)"
  using assms by (simp add: handle_cell_edit_def loc_row_def patch_cell_def)

lemma handle_other_edit: "column ev \<noteq> ''quantity'' \<Longrightarrow> handle_cell_edit ev s = Inr s"
  by (simp add: handle_cell_edit_def)

lemma patch_value_single_raise:
  "patch_value [(r, v)] s = Inl (e, t) \<Longrightarrow> t = s \<and> e = KeyError"
  by (auto simp: patch_cell_def split: if_splits)

lemma handle_cell_edit_cases:
  "handle_cell_edit ev s =
     (if served_quantity_edit (length (summary_table s)) ev
      then (case new_value ev of
              Number q \<Rightarrow>
                Inr (s\<lparr>summary_table :=
                         (summary_table s)[nat (row ev) :=
                            (summary_table s ! nat (row ev))\<lparr>value := q * price (summary_table s ! nat (row ev))\<rparr>],
                       writes := writes s @ [(''value'', row ev, q * price (summary_table s ! nat (row ev)))],
                       patches := patches s + 1\<rparr>)
            | Text t \<Rightarrow> Inl TypeError)
      else if column ev = ''quantity''
      then (if 0 \<le> row ev \<and> row ev < int (length (summary_table s)) then Inl TypeError
            else Inl KeyError)
      else Inr s)"
  by (cases "new_value ev")
     (simp_all add: handle_cell_edit_def served_quantity_edit_def loc_row_def patch_cell_def)

text \<open>
  C1. A quantity edit whose row is in the frame and whose new quantity \<open>q\<close> is a
  number, \<open>q \<ge> 0\<close> as the editor enforces, is served: afterwards the value cell of
  that row is \<open>q\<close> times the price cell of that row, the price cell is the one
  read, and every other row of the frame is as it was. The cell holds the very product
  the handler computed.
\<close>

theorem quantity_edit_recomputes_value:
  assumes "column ev = ''quantity''" and "new_value ev = Number q" and "0 \<le> q"
    and "0 \<le> row ev" and "row ev < int (length (summary_table s))"
  shows "\<exists>s'. handle_cell_edit ev s = Inr s'
           \<and> length (summary_table s') = length (summary_table s)
           \<and> value (summary_table s' ! nat (row ev)) = q * price (summary_table s' ! nat (row ev))
           \<and> price (summary_table s' ! nat (row ev)) = price (summary_table s ! nat (row ev))
           \<and> (\<forall>j < length (summary_table s). j \<noteq> nat (row ev) \<longrightarrow>
                 summary_table s' ! j = summary_table s ! j)"
proof -
  let ?r = "nat (row ev)"
  let ?v = "q * price (summary_table s ! ?r)"
  let ?s' = "s\<lparr>summary_table := (summary_table s)[?r := (summary_table s ! ?r)\<lparr>value := ?v\<rparr>],
               writes := writes s @ [(''value'', row ev, ?v)],
               patches := patches s + 1\<rparr>"
  have r: "?r < length (summary_table s)"
    using assms(4,5) by simp
  have "handle_cell_edit ev s = Inr ?s'"
    using assms(1,2,4,5) by (rule handle_quantity_edit)
  moreover have "length (summary_table ?s') = length (summary_table s)"
    by simp
  moreover have "value (summary_table ?s' ! ?r) = q * price (summary_table ?s' ! ?r)"
    using r by simp
  moreover have "price (summary_table ?s' ! ?r) = price (summary_table s ! ?r)"
    using r by simp
  moreover have "\<forall>j < length (summary_table s). j \<noteq> ?r \<longrightarrow>
                   summary_table ?s' ! j = summary_table s ! j"
    by simp
  ultimately show ?thesis by blast
qed

lemma sample_quantity_result:
  "handle_cell_edit sample_quantity_edit sample_app =
     Inr \<lparr>summary_table =
            [\<lparr>ticker = ''AAPL'', company = ''Apple'', info = '''', quantity = 75,
              price = 27 / 2, value = 1350, action = ''buy'', notes = ''''\<rparr>,
             \<lparr>ticker = ''MSFT'', company = ''Microsoft'', info = '''', quantity = 40,
              price = 45 / 2, value = 900, action = ''sell'', notes = ''''\<rparr>],
          patches = 1,
          writes = [(''value'', 0, 1350)]\<rparr>"
  by (simp add: handle_cell_edit_def loc_row_def patch_cell_def sample_quantity_edit_def
      sample_app_def sample_table_def)

theorem quantity_edit_recomputes_value_witness:
  "column sample_quantity_edit = ''quantity''
   \<and> new_value sample_quantity_edit = Number 100
   \<and> row sample_quantity_edit = 0
   \<and> (\<exists>s'. handle_cell_edit sample_quantity_edit sample_app = Inr s'
         \<and> value (summary_table s' ! 0) = 100 * (27 / 2)
         \<and> value (summary_table s' ! 1) = 900)"
proof -
  have h: "column sample_quantity_edit = ''quantity''"
      "new_value sample_quantity_edit = Number 100" "(0::real) \<le> 100"
      "0 \<le> row sample_quantity_edit"
      "row sample_quantity_edit < int (length (summary_table sample_app))"
    by (simp_all add: sample_quantity_edit_def sample_app_def sample_table_def)
  from quantity_edit_recomputes_value [OF h]
  obtain s' where s': "handle_cell_edit sample_quantity_edit sample_app = Inr s'"
      "value (summary_table s' ! nat (row sample_quantity_edit))
         = 100 * price (summary_table s' ! nat (row sample_quantity_edit))"
      "price (summary_table s' ! nat (row sample_quantity_edit))
         = price (summary_table sample_app ! nat (row sample_quantity_edit))"
      "\<forall>j < length (summary_table sample_app). j \<noteq> nat (row sample_quantity_edit) \<longrightarrow>
          summary_table s' ! j = summary_table sample_app ! j"
    by blast
  have r0: "nat (row sample_quantity_edit) = 0"
    by (simp add: sample_quantity_edit_def)
  have "value (summary_table s' ! 0) = 100 * (27 / 2)"
    using s'(2,3) by (simp add: r0 sample_app_def sample_table_def)
  moreover have "summary_table s' ! 1 = summary_table sample_app ! 1"
    using s'(4) by (simp add: r0 sample_app_def sample_table_def)
  then have "value (summary_table s' ! 1) = 900"
    by (simp add: sample_app_def sample_table_def)
  ultimately show ?thesis
    using s'(1) h(1,2) r0 by (auto simp: sample_quantity_edit_def)
qed

text \<open>
  C2 as stated fails. The increment of \<open>patches.value\<close> stands inside the branch
  of the test \<open>column == "quantity"\<close>: a notes edit on the sample state returns that
  state, and the counter, 0 before, is 0 after.
\<close>

theorem other_edit_increments_counterexample:
  "handle_cell_edit sample_notes_edit sample_app = Inr sample_app
   \<and> column sample_notes_edit = ''notes''
   \<and> patches sample_app = 0"
  by (simp add: handle_cell_edit_def sample_notes_edit_def sample_app_def)

text \<open>
  C2, as the code has it. An edit of any column other than \<open>quantity\<close> (action,
  notes) is served without an exception and changes nothing: the value column is not
  recomputed, no cell is patched and the counter keeps its value.
\<close>

theorem other_edit_changes_nothing:
  "column ev \<noteq> ''quantity'' \<Longrightarrow> handle_cell_edit ev s = Inr s"
  by (simp add: handle_cell_edit_def)

theorem other_edit_changes_nothing_witness:
  "column sample_notes_edit \<noteq> ''quantity''
   \<and> handle_cell_edit sample_notes_edit sample_app = Inr sample_app"
proof -
  have h: "column sample_notes_edit \<noteq> ''quantity''"
    by (simp add: sample_notes_edit_def)
  from h other_edit_changes_nothing [OF h, of sample_app] show ?thesis by simp
qed

lemma handle_cell_edit_Inr:
  assumes "handle_cell_edit ev s = Inr s'"
  shows "length (summary_table s') = length (summary_table s)"
    and "patches s' = patches s + (if served_quantity_edit (length (summary_table s)) ev then 1 else 0)"
    and "length (writes s') =
           length (writes s) + (if served_quantity_edit (length (summary_table s)) ev then 1 else 0)"
    and "\<exists>ws. writes s' = writes s @ ws \<and> list_all (\<lambda>w. fst w = ''value'') ws"
    and "served_quantity_edit (length (summary_table s)) ev \<longleftrightarrow> column ev = ''quantity''"
  using assms
  by (auto simp: handle_cell_edit_cases served_quantity_edit_def split: if_splits cell.splits)

lemma handle_cell_edit_Inl:
  assumes "handle_cell_edit ev s = Inl e"
  shows "\<not> served_quantity_edit (length (summary_table s)) ev"
  using assms
  by (auto simp: handle_cell_edit_cases served_quantity_edit_def split: if_splits cell.splits)

lemma on_edit_length: "length (summary_table (on_edit evs s)) = length (summary_table s)"
proof (induction evs arbitrary: s)
  case Nil
  show ?case by simp
next
  case (Cons ev evs)
  show ?case
  proof (cases "handle_cell_edit ev s")
    case (Inl e)
    with Cons.IH [of s] show ?thesis by simp
  next
    case (Inr s')
    with Cons.IH [of s'] handle_cell_edit_Inr(1) [OF Inr] show ?thesis by simp
  qed
qed

lemma on_edit_patches:
  "patches (on_edit evs s) =
     patches s + int (length (filter (served_quantity_edit (length (summary_table s))) evs))"
proof (induction evs arbitrary: s)
  case Nil
  show ?case by simp
next
  case (Cons ev evs)
  show ?case
  proof (cases "handle_cell_edit ev s")
    case (Inl e)
    with Cons.IH [of s] handle_cell_edit_Inl [OF Inl] show ?thesis by simp
  next
    case (Inr s')
    with Cons.IH [of s'] handle_cell_edit_Inr(1,2) [OF Inr] show ?thesis by simp
  qed
qed

lemma on_edit_append: "on_edit (evs @ later) s = on_edit later (on_edit evs s)"
  by (induction evs arbitrary: s) (auto split: sum.splits)

text \<open>
  C3. Over every sequence of edit events the counter never decreases, neither over
  the whole sequence nor from any prefix of it to a longer one; it ends at its start
  plus the number of quantity edits served; and each single served edit adds exactly 1
  when its column is \<open>quantity\<close> and nothing otherwise.
\<close>

theorem patches_non_decreasing:
  "patches s \<le> patches (on_edit evs s)
   \<and> patches (on_edit evs s) \<le> patches (on_edit (evs @ later) s)
   \<and> patches (on_edit evs s) =
       patches s + int (length (filter (served_quantity_edit (length (summary_table s))) evs))
   \<and> (\<forall>ev s'. handle_cell_edit ev s = Inr s' \<longrightarrow>
         patches s' = (if column ev = ''quantity'' then patches s + 1 else patches s))"
proof -
  have a: "patches s \<le> patches (on_edit evs s)"
    by (simp add: on_edit_patches)
  have b: "patches (on_edit evs s) \<le> patches (on_edit (evs @ later) s)"
    by (simp add: on_edit_append on_edit_patches [of later])
  have c: "\<forall>ev s'. handle_cell_edit ev s = Inr s' \<longrightarrow>
         patches s' = (if column ev = ''quantity'' then patches s + 1 else patches s)"
    using handle_cell_edit_Inr(2,5) by auto
  from a b c on_edit_patches [of evs s] show ?thesis by blast
qed

lemma sample_served:
  "filter (served_quantity_edit (length (summary_table sample_app))) sample_edits =
     [sample_quantity_edit, \<lparr>row = 1, column = ''quantity'', new_value = Number 10\<rparr>]"
  by (simp add: sample_edits_def served_quantity_edit_def sample_quantity_edit_def
      sample_notes_edit_def sample_app_def sample_table_def)

theorem patches_non_decreasing_witness:
  "patches sample_app = 0
   \<and> patches (on_edit sample_edits sample_app) = 2
   \<and> patches (on_edit (take 2 sample_edits) sample_app) = 1
   \<and> (\<exists>s'. handle_cell_edit sample_quantity_edit sample_app = Inr s' \<and> patches s' = 1)"
proof -
  have p0: "patches sample_app = 0"
    by (simp add: sample_app_def)
  from patches_non_decreasing [of sample_app sample_edits "[]"]
  have "patches (on_edit sample_edits sample_app) =
          patches sample_app
          + int (length (filter (served_quantity_edit (length (summary_table sample_app))) sample_edits))"
    by blast
  then have a: "patches (on_edit sample_edits sample_app) = 2"
    by (simp add: sample_served p0)
  have b: "patches (on_edit (take 2 sample_edits) sample_app) = 1"
    by (simp add: sample_edits_def sample_quantity_result
        handle_other_edit sample_notes_edit_def)
  obtain s' where s': "handle_cell_edit sample_quantity_edit sample_app = Inr s'"
    using sample_quantity_result by blast
  with patches_non_decreasing [of sample_app sample_edits "[]"]
  have "patches s' = (if column sample_quantity_edit = ''quantity''
                      then patches sample_app + 1 else patches sample_app)"
    by blast
  then have "patches s' = 1"
    by (simp add: sample_quantity_edit_def p0)
  with s' p0 a b show ?thesis by blast
qed

lemma replay_append: "replay (ws @ ws') df = replay ws' (replay ws df)"
  by (simp add: replay_def)

lemma handle_cell_edit_replay:
  assumes "handle_cell_edit ev s = Inr s'"
  shows "\<exists>ws. writes s' = writes s @ ws
           \<and> summary_table s' = replay ws (summary_table s)
           \<and> list_all (\<lambda>w. fst w = ''value'') ws
           \<and> length ws = (if served_quantity_edit (length (summary_table s)) ev then 1 else 0)"
proof (cases "served_quantity_edit (length (summary_table s)) ev")
  case True
  then obtain q where q: "new_value ev = Number q"
    and r: "0 \<le> row ev" "row ev < int (length (summary_table s))"
    by (auto simp: served_quantity_edit_def split: cell.splits)
  let ?w = "(''value'', row ev, q * price (summary_table s ! nat (row ev)))"
  from assms True q have s': "s' = s\<lparr>summary_table :=
        (summary_table s)[nat (row ev) :=
           (summary_table s ! nat (row ev))\<lparr>value := q * price (summary_table s ! nat (row ev))\<rparr>],
      writes := writes s @ [?w], patches := patches s + 1\<rparr>"
    by (simp add: handle_cell_edit_cases)
  have "writes s' = writes s @ [?w]"
    by (simp add: s')
  moreover have "summary_table s' = replay [?w] (summary_table s)"
    using r by (simp add: s' replay_def apply_write_def)
  ultimately show ?thesis
    using True by (intro exI [of _ "[?w]"]) simp
next
  case False
  with assms have "s' = s"
    by (simp add: handle_cell_edit_cases split: if_splits)
  with False show ?thesis
    by (intro exI [of _ "[]"]) (simp add: replay_def)
qed

lemma on_edit_replay:
  "\<exists>ws. writes (on_edit evs s) = writes s @ ws
     \<and> summary_table (on_edit evs s) = replay ws (summary_table s)
     \<and> list_all (\<lambda>w. fst w = ''value'') ws
     \<and> length ws = length (filter (served_quantity_edit (length (summary_table s))) evs)"
proof (induction evs arbitrary: s)
  case Nil
  show ?case by (simp add: replay_def)
next
  case (Cons ev evs)
  show ?case
  proof (cases "handle_cell_edit ev s")
    case (Inl e)
    with Cons.IH [of s] handle_cell_edit_Inl [OF Inl] show ?thesis by simp
  next
    case (Inr s')
    from handle_cell_edit_replay [OF Inr] obtain ws where ws:
      "writes s' = writes s @ ws" "summary_table s' = replay ws (summary_table s)"
      "list_all (\<lambda>w. fst w = ''value'') ws"
      "length ws = (if served_quantity_edit (length (summary_table s)) ev then 1 else 0)"
      by blast
    have len: "length (summary_table s') = length (summary_table s)"
      using Inr by (rule handle_cell_edit_Inr(1))
    from Cons.IH [of s'] obtain ws' where ws':
      "writes (on_edit evs s') = writes s' @ ws'"
      "summary_table (on_edit evs s') = replay ws' (summary_table s')"
      "list_all (\<lambda>w. fst w = ''value'') ws'"
      "length ws' = length (filter (served_quantity_edit (length (summary_table s'))) evs)"
      by blast
    have "writes (on_edit (ev # evs) s) = writes s @ (ws @ ws')"
      using Inr ws(1) ws'(1) by simp
    moreover have "summary_table (on_edit (ev # evs) s) = replay (ws @ ws') (summary_table s)"
      using Inr ws(2) ws'(2) by (simp add: replay_append)
    moreover have "list_all (\<lambda>w. fst w = ''value'') (ws @ ws')"
      using ws(3) ws'(3) by simp
    moreover have "length (ws @ ws') =
        length (filter (served_quantity_edit (length (summary_table s))) (ev # evs))"
      using ws(4) ws'(4) len by simp
    ultimately show ?thesis by blast
  qed
qed

lemma on_edit_ignored: "list_all (\<lambda>e. column e \<noteq> ''quantity'') vs \<Longrightarrow> on_edit vs t = t"
  by (induction vs) (simp_all add: handle_other_edit)

lemma announce_ignored:
  "list_all (\<lambda>w. fst w = ''value'') ws \<Longrightarrow>
     list_all (\<lambda>e. column e \<noteq> ''quantity'') (map announce ws)"
  by (induction ws) (auto simp: announce_def)

lemma serve_reentrant_on_edit: "serve_reentrant evs s = on_edit evs s"
proof (induction evs s rule: serve_reentrant.induct)
  case (1 s)
  show ?case by simp
next
  case (2 ev pending s)
  show ?case
  proof (cases "handle_cell_edit ev s")
    case (Inl e)
    with "2.IH"(1) show ?thesis by simp
  next
    case (Inr s')
    from handle_cell_edit_replay [OF Inr] obtain ws where ws:
      "writes s' = writes s @ ws" "list_all (\<lambda>w. fst w = ''value'') ws"
      by blast
    then have new: "drop (length (writes s)) (writes s') = ws"
      by simp
    have "serve_reentrant (ev # pending) s = serve_reentrant (pending @ map announce ws) s'"
      using Inr new by simp
    also have "\<dots> = on_edit (pending @ map announce ws) s'"
      using "2.IH"(2) [OF Inr] new by simp
    also have "\<dots> = on_edit (map announce ws) (on_edit pending s')"
      by (rule on_edit_append)
    also have "\<dots> = on_edit pending s'"
      using ws(2) by (intro on_edit_ignored announce_ignored)
    also have "\<dots> = on_edit (ev # pending) s"
      using Inr by simp
    finally show ?thesis .
  qed
qed

text \<open>
  C4. A served quantity edit mutates the store exactly once: the frame after it is the
  frame before it with the value cell of the edited row overwritten by the product,
  the list of written cells grows by that one cell, and the counter by one. An edit
  event of column \<open>value\<close> fails the quantity test and leaves the state as it is, so
  even the host that presents every patched cell to the handler again ends, after the
  one edit, in the state of that edit: no second mutation, no loop. For every
  sequence of events that re-entrant host terminates in the state of the plain host;
  the frame at the end is the frame at the start with the written cells replayed on
  it, all of them in the value column, one for each quantity edit served and so at
  most one for each event.
\<close>

theorem quantity_edit_single_patch:
  assumes "column ev = ''quantity''" and "new_value ev = Number q"
    and "0 \<le> row ev" and "row ev < int (length (summary_table s))"
  shows "(\<exists>s'. handle_cell_edit ev s = Inr s'
            \<and> summary_table s' =
                (summary_table s)[nat (row ev) :=
                   (summary_table s ! nat (row ev))\<lparr>value := q * price (summary_table s ! nat (row ev))\<rparr>]
            \<and> writes s' = writes s @ [(''value'', row ev, q * price (summary_table s ! nat (row ev)))]
            \<and> patches s' = patches s + 1
            \<and> (\<forall>c. handle_cell_edit \<lparr>row = row ev, column = ''value'', new_value = c\<rparr> s' = Inr s')
            \<and> serve_reentrant [ev] s = s')
         \<and> serve_reentrant evs s = on_edit evs s
         \<and> (\<exists>ws. writes (on_edit evs s) = writes s @ ws
               \<and> summary_table (on_edit evs s) = replay ws (summary_table s)
               \<and> list_all (\<lambda>w. fst w = ''value'') ws
               \<and> length ws = length (filter (served_quantity_edit (length (summary_table s))) evs)
               \<and> length ws \<le> length evs)"
proof -
  let ?v = "q * price (summary_table s ! nat (row ev))"
  let ?s' = "s\<lparr>summary_table :=
                 (summary_table s)[nat (row ev) := (summary_table s ! nat (row ev))\<lparr>value := ?v\<rparr>],
               writes := writes s @ [(''value'', row ev, ?v)],
               patches := patches s + 1\<rparr>"
  have step: "handle_cell_edit ev s = Inr ?s'"
    using assms by (rule handle_quantity_edit)
  have again: "\<forall>c. handle_cell_edit \<lparr>row = row ev, column = ''value'', new_value = c\<rparr> ?s' = Inr ?s'"
    by (simp add: handle_other_edit)
  have "serve_reentrant [ev] s = on_edit [ev] s"
    by (rule serve_reentrant_on_edit)
  with step have run: "serve_reentrant [ev] s = ?s'"
    by simp
  have first: "\<exists>s'. handle_cell_edit ev s = Inr s'
            \<and> summary_table s' =
                (summary_table s)[nat (row ev) := (summary_table s ! nat (row ev))\<lparr>value := ?v\<rparr>]
            \<and> writes s' = writes s @ [(''value'', row ev, ?v)]
            \<and> patches s' = patches s + 1
            \<and> (\<forall>c. handle_cell_edit \<lparr>row = row ev, column = ''value'', new_value = c\<rparr> s' = Inr s')
            \<and> serve_reentrant [ev] s = s'"
    using step again run by (intro exI [of _ ?s']) simp
  from on_edit_replay [of evs s] obtain ws where ws:
    "writes (on_edit evs s) = writes s @ ws"
    "summary_table (on_edit evs s) = replay ws (summary_table s)"
    "list_all (\<lambda>w. fst w = ''value'') ws"
    "length ws = length (filter (served_quantity_edit (length (summary_table s))) evs)"
    by blast
  from ws(4) have "length ws \<le> length evs"
    by simp
  with ws have second: "\<exists>ws. writes (on_edit evs s) = writes s @ ws
               \<and> summary_table (on_edit evs s) = replay ws (summary_table s)
               \<and> list_all (\<lambda>w. fst w = ''value'') ws
               \<and> length ws = length (filter (served_quantity_edit (length (summary_table s))) evs)
               \<and> length ws \<le> length evs"
    by blast
  from first second serve_reentrant_on_edit [of evs s] show ?thesis
    by (intro conjI)
qed

theorem quantity_edit_single_patch_witness:
  "column sample_quantity_edit = ''quantity''
   \<and> new_value sample_quantity_edit = Number 100
   \<and> (\<exists>s'. handle_cell_edit sample_quantity_edit sample_app = Inr s'
         \<and> summary_table s' =
             [\<lparr>ticker = ''AAPL'', company = ''Apple'', info = '''', quantity = 75,
               price = 27 / 2, value = 1350, action = ''buy'', notes = ''''\<rparr>,
              \<lparr>ticker = ''MSFT'', company = ''Microsoft'', info = '''', quantity = 40,
               price = 45 / 2, value = 900, action = ''sell'', notes = ''''\<rparr>]
         \<and> writes s' = [(''value'', 0, 1350)]
         \<and> patches s' = 1
         \<and> handle_cell_edit \<lparr>row = 0, column = ''value'', new_value = Number 1350\<rparr> s' = Inr s'
         \<and> serve_reentrant [sample_quantity_edit] sample_app = s')
   \<and> serve_reentrant sample_edits sample_app = on_edit sample_edits sample_app
   \<and> length (writes (on_edit sample_edits sample_app)) = 2"
proof -
  have h: "column sample_quantity_edit = ''quantity''"
      "new_value sample_quantity_edit = Number 100"
      "0 \<le> row sample_quantity_edit"
      "row sample_quantity_edit < int (length (summary_table sample_app))"
    by (simp_all add: sample_quantity_edit_def sample_app_def sample_table_def)
  have r0: "row sample_quantity_edit = 0"
    by (simp add: sample_quantity_edit_def)
  have p0: "price (summary_table sample_app ! 0) = 27 / 2" "writes sample_app = []"
    "patches sample_app = 0"
    by (simp_all add: sample_app_def sample_table_def)
  note inst = quantity_edit_single_patch [OF h, of sample_edits]
  from inst obtain s' where s': "handle_cell_edit sample_quantity_edit sample_app = Inr s'"
      "summary_table s' =
         (summary_table sample_app)[nat (row sample_quantity_edit) :=
            (summary_table sample_app ! nat (row sample_quantity_edit))
              \<lparr>value := 100 * price (summary_table sample_app ! nat (row sample_quantity_edit))\<rparr>]"
      "writes s' = writes sample_app
         @ [(''value'', row sample_quantity_edit,
             100 * price (summary_table sample_app ! nat (row sample_quantity_edit)))]"
      "patches s' = patches sample_app + 1"
      "\<forall>c. handle_cell_edit \<lparr>row = row sample_quantity_edit, column = ''value'', new_value = c\<rparr> s'
             = Inr s'"
      "serve_reentrant [sample_quantity_edit] sample_app = s'"
    by blast
  from s'(2) have tbl: "summary_table s' =
             [\<lparr>ticker = ''AAPL'', company = ''Apple'', info = '''', quantity = 75,
               price = 27 / 2, value = 1350, action = ''buy'', notes = ''''\<rparr>,
              \<lparr>ticker = ''MSFT'', company = ''Microsoft'', info = '''', quantity = 40,
               price = 45 / 2, value = 900, action = ''sell'', notes = ''''\<rparr>]"
    by (simp add: r0 sample_app_def sample_table_def)
  from s'(3) have w: "writes s' = [(''value'', 0, 1350)]"
    by (simp add: r0 p0)
  from s'(4) have p: "patches s' = 1"
    by (simp add: p0)
  from s'(5) have again:
    "handle_cell_edit \<lparr>row = 0, column = ''value'', new_value = Number 1350\<rparr> s' = Inr s'"
    by (simp add: r0)
  from inst have same: "serve_reentrant sample_edits sample_app = on_edit sample_edits sample_app"
    by blast
  from inst obtain ws where ws: "writes (on_edit sample_edits sample_app) = writes sample_app @ ws"
    "length ws = length (filter (served_quantity_edit (length (summary_table sample_app))) sample_edits)"
    by blast
  then have n: "length (writes (on_edit sample_edits sample_app)) = 2"
    by (simp add: sample_served p0)
  from h(1,2) s'(1,6) tbl w p again same n show ?thesis by blast
qed

subsection \<open>The portfolio distribution chart\<close>

lemma below_ten: "d < 10 \<Longrightarrow> d \<in> {0, 1, 2, 3, 4, 5, 6, 7, 8, 9::nat}"
  by auto

lemma digit_value_digit: "d < 10 \<Longrightarrow> digit_value (digit d) = d"
  by (drule below_ten) (auto simp: digit_def digit_value_def)

lemma digit_plain: "d < 10 \<Longrightarrow> digit d \<noteq> CHR '','' \<and> digit d \<noteq> CHR ''-''"
  by (drule below_ten) (auto simp: digit_def)

lemma read_digits_snoc: "read_digits (cs @ [c]) = 10 * read_digits cs + digit_value c"
  by (simp add: read_digits_def)

lemma read_digits_append3:
  "read_digits (cs @ [a, b, c]) =
     1000 * read_digits cs + (100 * digit_value a + 10 * digit_value b + digit_value c)"
  by (simp add: read_digits_def)

lemma digits_plain: "c \<in> set (digits n) \<Longrightarrow> c \<noteq> CHR '','' \<and> c \<noteq> CHR ''-''"
proof (induction n rule: digits.induct)
  case (1 n)
  show ?case
  proof (cases "n < 10")
    case True
    with "1.prems" digit_plain [of n] show ?thesis
      by (simp add: digits.simps [of n])
  next
    case False
    with "1.prems" have "c \<in> set (digits (n div 10)) \<or> c = digit (n mod 10)"
      by (auto simp: digits.simps [of n])
    with "1.IH" False digit_plain [of "n mod 10"] show ?thesis by auto
  qed
qed

lemma digits_nonempty: "digits n \<noteq> []"
  by (simp add: digits.simps [of n])

lemma read_digits_digits: "read_digits (digits n) = n"
proof (induction n rule: digits.induct)
  case (1 n)
  show ?case
  proof (cases "n < 10")
    case True
    then show ?thesis
      by (simp add: digits.simps [of n] read_digits_def digit_value_digit)
  next
    case False
    with "1.IH" show ?thesis
      by (simp add: digits.simps [of n] read_digits_snoc digit_value_digit)
  qed
qed

lemma pad3_plain:
  assumes "n < 1000" and "c \<in> set (pad3 n)"
  shows "c \<noteq> CHR '','' \<and> c \<noteq> CHR ''-''"
proof -
  from assms(1) have "n div 100 < 10" by simp
  from digit_plain [OF this] digit_plain [of "n div 10 mod 10"] digit_plain [of "n mod 10"]
    assms(2)
  show ?thesis by (auto simp: pad3_def)
qed

lemma three_digits: "100 * (n div 100) + 10 * (n div 10 mod 10) + n mod 10 = (n::nat)"
proof -
  have hundreds: "n div 100 = n div 10 div 10"
    using div_mult2_eq [of n 10 10] by simp
  have tens: "n div 10 = 10 * (n div 10 div 10) + n div 10 mod 10"
    by (rule mult_div_mod_eq [symmetric])
  have units: "n = 10 * (n div 10) + n mod 10"
    by (rule mult_div_mod_eq [symmetric])
  from hundreds tens units show ?thesis by linarith
qed

lemma read_digits_pad3:
  assumes "n < 1000"
  shows "read_digits (cs @ pad3 n) = 1000 * read_digits cs + n"
proof -
  from assms have "n div 100 < 10" by simp
  then have "read_digits (cs @ pad3 n) =
      1000 * read_digits cs + (100 * (n div 100) + 10 * (n div 10 mod 10) + n mod 10)"
    by (simp add: pad3_def read_digits_append3 digit_value_digit)
  moreover have "100 * (n div 100) + 10 * (n div 10 mod 10) + n mod 10 = n"
    by (rule three_digits)
  ultimately show ?thesis by simp
qed

lemma group_thousands_plain: "c \<in> set (group_thousands n) \<Longrightarrow> c \<noteq> CHR ''-''"
proof (induction n rule: group_thousands.induct)
  case (1 n)
  show ?case
  proof (cases "n < 1000")
    case True
    with "1.prems" digits_plain [of c n] show ?thesis
      by (simp add: group_thousands.simps [of n])
  next
    case False
    with "1.prems" have "c \<in> set (group_thousands (n div 1000)) \<or> c = CHR '',''
        \<or> c \<in> set (pad3 (n mod 1000))"
      by (auto simp: group_thousands.simps [of n])
    with "1.IH" False pad3_plain [of "n mod 1000" c] show ?thesis by auto
  qed
qed

lemma group_thousands_nonempty: "group_thousands n \<noteq> []"
  by (simp add: group_thousands.simps [of n] digits_nonempty)

lemma strip_commas_group:
  "read_digits (filter (\<lambda>c. c \<noteq> CHR '','') (group_thousands n)) = n"
proof (induction n rule: group_thousands.induct)
  case (1 n)
  show ?case
  proof (cases "n < 1000")
    case True
    have "filter (\<lambda>c. c \<noteq> CHR '','') (digits n) = digits n"
      using digits_plain [of _ n] by (simp add: filter_id_conv)
    with True show ?thesis
      by (simp add: group_thousands.simps [of n] read_digits_digits)
  next
    case False
    have "filter (\<lambda>c. c \<noteq> CHR '','') (pad3 (n mod 1000)) = pad3 (n mod 1000)"
      using pad3_plain [of "n mod 1000"] by (simp add: filter_id_conv)
    with False "1.IH" show ?thesis
      by (simp add: group_thousands.simps [of n] read_digits_pad3)
  qed
qed

lemma displayed_group: "displayed_number (group_thousands n) = int n"
proof -
  let ?ds = "filter (\<lambda>c. c \<noteq> CHR '','') (group_thousands n)"
  show ?thesis
  proof (cases ?ds)
    case Nil
    with strip_commas_group [of n] show ?thesis
      by (simp add: displayed_number_def read_digits_def)
  next
    case (Cons c cs)
    then have "c \<in> set (filter (\<lambda>c. c \<noteq> CHR '','') (group_thousands n))"
      by simp
    then have "c \<in> set (group_thousands n)"
      by simp
    then have "c \<noteq> CHR ''-''" by (rule group_thousands_plain)
    with Cons strip_commas_group [of n] show ?thesis
      by (simp add: displayed_number_def)
  qed
qed

lemma displayed_minus_group: "displayed_number (''-'' @ group_thousands n) = - int n"
  using strip_commas_group [of n] by (simp add: displayed_number_def)

lemma round_half_even_near: "\<bar>real_of_int (round_half_even x) - x\<bar> \<le> 1 / 2"
proof -
  have "real_of_int \<lfloor>x\<rfloor> \<le> x" and "x < real_of_int \<lfloor>x\<rfloor> + 1"
    by linarith+
  then show ?thesis
    by (auto simp: round_half_even_def Let_def)
qed

lemma round_half_even_nonneg: "0 \<le> x \<Longrightarrow> 0 \<le> round_half_even x"
  by (auto simp: round_half_even_def Let_def)

lemma displayed_format:
  "displayed_number (format_comma_0f x) =
     (if x < 0 then - round_half_even \<bar>x\<bar> else round_half_even \<bar>x\<bar>)"
proof -
  define m where "m = round_half_even \<bar>x\<bar>"
  have m: "0 \<le> m"
    unfolding m_def by (rule round_half_even_nonneg) simp
  have "displayed_number (format_comma_0f x) =
      (if x < 0 then displayed_number (''-'' @ group_thousands (nat m))
       else displayed_number (group_thousands (nat m)))"
    by (simp add: format_comma_0f_def m_def)
  also have "\<dots> = (if x < 0 then - m else m)"
    using m by (simp only: displayed_group displayed_minus_group int_nat_eq if_True)
  finally show ?thesis
    by (simp only: m_def)
qed

lemma displayed_format_near:
  "\<bar>real_of_int (displayed_number (format_comma_0f x)) - x\<bar> \<le> 1 / 2"
proof (cases "x < 0")
  case True
  with round_half_even_near [of "- x"] show ?thesis
    by (simp only: displayed_format if_True abs_of_neg)
next
  case False
  with round_half_even_near [of x] show ?thesis
    by (simp only: displayed_format if_False abs_of_nonneg [OF leI])
qed

lemma portfolio_title:
  "title_text (layout (portfolio_distribution p s)) =
     ''Portfolio Total $ '' @ format_comma_0f (sum_list (map value (summary_table s)))"
  by (simp add: portfolio_distribution_def Let_def)



text \<open>
  C5. The title of the distribution chart is \<open>Portfolio Total $\<close> followed by the
  sum of the value column of the frame the function reads when it is called, in the
  format \<open>,.0f\<close>: the number the title shows is that sum rounded to a whole number
  (a tie to the even neighbour), at most one half away from it.
\<close>

theorem portfolio_title_shows_sum:
  "title_text (layout (portfolio_distribution p s)) =
     ''Portfolio Total $ '' @ format_comma_0f (sum_list (map value (summary_table s)))
   \<and> displayed_number (format_comma_0f (sum_list (map value (summary_table s)))) =
       (if sum_list (map value (summary_table s)) < 0
        then - round_half_even \<bar>sum_list (map value (summary_table s))\<bar>
        else round_half_even \<bar>sum_list (map value (summary_table s))\<bar>)
   \<and> \<bar>real_of_int (displayed_number (format_comma_0f (sum_list (map value (summary_table s)))))
        - sum_list (map value (summary_table s))\<bar> \<le> 1 / 2"
  using portfolio_title [of p s] displayed_format [of "sum_list (map value (summary_table s))"]
    displayed_format_near [of "sum_list (map value (summary_table s))"]
  by (intro conjI)

lemma format_samples:
  "format_comma_0f (3825 / 2) = ''1,912''"
  "format_comma_0f 2250 = ''2,250''"
  "format_comma_0f (2469135 / 2) = ''1,234,568''"
  "format_comma_0f (- 2 / 5) = ''-0''"
  by (simp_all add: format_comma_0f_def round_half_even_def pad3_def digit_def
      digits.simps group_thousands.simps)

lemma sample_titles:
  "title_text (layout (portfolio_distribution 0 sample_app)) = ''Portfolio Total $ 1,912''"
  "title_text (layout (portfolio_distribution 1 (on_edit [sample_quantity_edit] sample_app)))
     = ''Portfolio Total $ 2,250''"
proof -
  have before: "sum_list (map value (summary_table sample_app)) = 3825 / 2"
    by (simp add: sample_app_def sample_table_def)
  show "title_text (layout (portfolio_distribution 0 sample_app)) = ''Portfolio Total $ 1,912''"
    unfolding portfolio_title before format_samples by simp
  have after: "sum_list (map value (summary_table (on_edit [sample_quantity_edit] sample_app))) = 2250"
    by (simp add: sample_quantity_result)
  show "title_text (layout (portfolio_distribution 1 (on_edit [sample_quantity_edit] sample_app)))
     = ''Portfolio Total $ 2,250''"
    unfolding portfolio_title after format_samples by simp
qed





text \<open>
  C9. The counter passed to \<open>portfolio_distribution\<close> does not enter its result: for
  the same state, any two counter values give the same figure.
\<close>

theorem portfolio_distribution_ignores_counter:
  "portfolio_distribution p1 s = portfolio_distribution p2 s"
  by (simp add: portfolio_distribution_def)

subsection \<open>The candlestick chart\<close>

lemma candlestick_default:
  "candlestick [] data hist =
     (case loc_ticker ''AAPL'' hist of
        Inl e \<Rightarrow> Inl e
      | Inr dff \<Rightarrow>
          Inr \<lparr>trace = Candlestick (map Date dff) (map Open dff) (map High dff)
                                   (map Low dff) (map Close dff),
               layout = \<lparr>title_text = ''AAPL Apple Daily Price'',
                          template = ''plotly_dark'', autosize = True,
                          plot_bgcolor = DARK_BG, paper_bgcolor = DARK_BG,
                          font_color = DARK_TEXT, title_font_color = None,
                          xaxis = Some dark_axis, yaxis = Some dark_axis\<rparr>\<rparr>)"
  by (simp add: candlestick_def split: sum.split)

lemma candlestick_selected:
  assumes "0 \<le> i" and "i < int (length data)"
  shows "candlestick (i # more_rows) data hist =
     (case loc_ticker (ticker (data ! nat i)) hist of
        Inl e \<Rightarrow> Inl e
      | Inr dff \<Rightarrow>
          Inr \<lparr>trace = Candlestick (map Date dff) (map Open dff) (map High dff)
                                   (map Low dff) (map Close dff),
               layout = \<lparr>title_text =
                            ticker (data ! nat i) @ '' '' @ company (data ! nat i) @ '' Daily Price'',
                          template = ''plotly_dark'', autosize = True,
                          plot_bgcolor = DARK_BG, paper_bgcolor = DARK_BG,
                          font_color = DARK_TEXT, title_font_color = None,
                          xaxis = Some dark_axis, yaxis = Some dark_axis\<rparr>\<rparr>)"
  using assms by (simp add: candlestick_def loc_row_def split: sum.split)

lemma candlestick_bad_row:
  "\<not> (0 \<le> i \<and> i < int (length data)) \<Longrightarrow> candlestick (i # more_rows) data hist = Inl KeyError"
  by (auto simp: candlestick_def loc_row_def)

lemma title_mentions:
  "sublist tk (tk @ '' '' @ co @ '' Daily Price'')"
  "sublist co (tk @ '' '' @ co @ '' Daily Price'')"
proof -
  show "sublist tk (tk @ '' '' @ co @ '' Daily Price'')"
    by (rule sublist_append_rightI)
  have "tk @ '' '' @ co @ '' Daily Price'' = (tk @ '' '') @ co @ '' Daily Price''"
    by simp
  then show "sublist co (tk @ '' '' @ co @ '' Daily Price'')"
    unfolding sublist_def by blast
qed

text \<open>
  C7. With an empty selection the chart is that of the fixed ticker \<open>AAPL\<close>, company
  \<open>Apple\<close>, whatever the frame holds: its title is \<open>AAPL Apple Daily Price\<close> and its
  series are the history rows of \<open>AAPL\<close>. With the selection \<open>[i]\<close>, \<open>i\<close> a row of
  the frame, ticker and company are those of row \<open>i\<close> of the frame passed in: the title
  is ticker, company and \<open>Daily Price\<close>, so it contains both, the series are the history
  rows of that ticker, and any frame with the same row \<open>i\<close> gives the same result. A
  selection outside the frame raises \<open>KeyError\<close>.
\<close>

theorem candlestick_resolution:
  "candlestick [] data hist = candlestick [] data' hist
   \<and> (loc_ticker ''AAPL'' hist = Inr dff \<longrightarrow>
        (\<exists>fig. candlestick [] data hist = Inr fig
           \<and> title_text (layout fig) = ''AAPL Apple Daily Price''
           \<and> trace fig = Candlestick (map Date dff) (map Open dff) (map High dff)
                                      (map Low dff) (map Close dff)))
   \<and> (0 \<le> i \<and> i < int (length data)
        \<and> loc_ticker (ticker (data ! nat i)) hist = Inr rows \<longrightarrow>
        (\<exists>fig. candlestick [i] data hist = Inr fig
           \<and> title_text (layout fig) =
               ticker (data ! nat i) @ '' '' @ company (data ! nat i) @ '' Daily Price''
           \<and> sublist (ticker (data ! nat i)) (title_text (layout fig))
           \<and> sublist (company (data ! nat i)) (title_text (layout fig))
           \<and> trace fig = Candlestick (map Date rows) (map Open rows) (map High rows)
                                      (map Low rows) (map Close rows)))
   \<and> (0 \<le> i \<and> i < int (length data) \<and> i < int (length data')
        \<and> data' ! nat i = data ! nat i \<longrightarrow>
        candlestick [i] data' hist = candlestick [i] data hist)
   \<and> (\<not> (0 \<le> i \<and> i < int (length data)) \<longrightarrow> candlestick [i] data hist = Inl KeyError)"
proof (intro conjI impI)
  show "candlestick [] data hist = candlestick [] data' hist"
    by (simp only: candlestick_default)
next
  assume "loc_ticker ''AAPL'' hist = Inr dff"
  then show "\<exists>fig. candlestick [] data hist = Inr fig
           \<and> title_text (layout fig) = ''AAPL Apple Daily Price''
           \<and> trace fig = Candlestick (map Date dff) (map Open dff) (map High dff)
                                      (map Low dff) (map Close dff)"
    by (simp add: candlestick_default)
next
  let ?tk = "ticker (data ! nat i)" and ?co = "company (data ! nat i)"
  let ?fig = "\<lparr>trace = Candlestick (map Date rows) (map Open rows) (map High rows)
                                (map Low rows) (map Close rows),
           layout = \<lparr>title_text = ?tk @ '' '' @ ?co @ '' Daily Price'',
                      template = ''plotly_dark'', autosize = True,
                      plot_bgcolor = DARK_BG, paper_bgcolor = DARK_BG,
                      font_color = DARK_TEXT, title_font_color = None,
                      xaxis = Some dark_axis, yaxis = Some dark_axis\<rparr>\<rparr>"
  assume h: "0 \<le> i \<and> i < int (length data)
        \<and> loc_ticker (ticker (data ! nat i)) hist = Inr rows"
  then have res: "candlestick [i] data hist = Inr ?fig"
    by (simp add: candlestick_selected)
  have title: "title_text (layout ?fig) = ?tk @ '' '' @ ?co @ '' Daily Price''"
    by (simp only: figure.select_convs layout.select_convs)
  have tr: "trace ?fig = Candlestick (map Date rows) (map Open rows) (map High rows)
                                      (map Low rows) (map Close rows)"
    by (simp only: figure.select_convs)
  have "sublist ?tk (title_text (layout ?fig))" and "sublist ?co (title_text (layout ?fig))"
    by (simp_all only: title title_mentions)
  with res title tr
  show "\<exists>fig. candlestick [i] data hist = Inr fig
           \<and> title_text (layout fig) = ?tk @ '' '' @ ?co @ '' Daily Price''
           \<and> sublist ?tk (title_text (layout fig))
           \<and> sublist ?co (title_text (layout fig))
           \<and> trace fig = Candlestick (map Date rows) (map Open rows) (map High rows)
                                      (map Low rows) (map Close rows)"
    by (intro exI [of _ ?fig] conjI)
next
  assume "0 \<le> i \<and> i < int (length data) \<and> i < int (length data')
        \<and> data' ! nat i = data ! nat i"
  then have "0 \<le> i" "i < int (length data)" "i < int (length data')"
    and same: "data' ! nat i = data ! nat i"
    by simp_all
  then show "candlestick [i] data' hist = candlestick [i] data hist"
    by (simp only: candlestick_selected same)
next
  assume "\<not> (0 \<le> i \<and> i < int (length data))"
  then show "candlestick [i] data hist = Inl KeyError"
    by (rule candlestick_bad_row)
qed

lemma sample_msft_rows:
  "loc_ticker ''MSFT'' sample_history =
     Inr [\<lparr>Ticker = ''MSFT'', Date = 1, Open = 20, High = 22, Low = 19, Close = 21\<rparr>,
          \<lparr>Ticker = ''MSFT'', Date = 2, Open = 21, High = 23, Low = 20, Close = 45 / 2\<rparr>]"
  by (simp add: loc_ticker_def sample_history_def)

lemma sample_aapl_rows:
  "loc_ticker ''AAPL'' sample_history =
     Inr [\<lparr>Ticker = ''AAPL'', Date = 1, Open = 10, High = 12, Low = 9, Close = 11\<rparr>,
          \<lparr>Ticker = ''AAPL'', Date = 2, Open = 11, High = 14, Low = 10, Close = 27 / 2\<rparr>]"
  by (simp add: loc_ticker_def sample_history_def)

theorem candlestick_resolution_witness:
  "(\<exists>fig. candlestick [] [] sample_history = Inr fig
      \<and> title_text (layout fig) = ''AAPL Apple Daily Price''
      \<and> trace fig = Candlestick [1, 2] [10, 11] [12, 14] [9, 10] [11, 27 / 2])
   \<and> candlestick [] sample_table sample_history = candlestick [] [] sample_history
   \<and> (\<exists>fig. candlestick [1] sample_table sample_history = Inr fig
      \<and> title_text (layout fig) = ''MSFT Microsoft Daily Price''
      \<and> trace fig = Candlestick [1, 2] [20, 21] [22, 23] [19, 20] [21, 45 / 2])
   \<and> candlestick [2] sample_table sample_history = Inl KeyError"
proof -
  have a: "\<exists>fig. candlestick [] [] sample_history = Inr fig
      \<and> title_text (layout fig) = ''AAPL Apple Daily Price''
      \<and> trace fig = Candlestick [1, 2] [10, 11] [12, 14] [9, 10] [11, 27 / 2]"
    using candlestick_resolution [of "[]" sample_history "[]"
        "[\<lparr>Ticker = ''AAPL'', Date = 1, Open = 10, High = 12, Low = 9, Close = 11\<rparr>,
          \<lparr>Ticker = ''AAPL'', Date = 2, Open = 11, High = 14, Low = 10, Close = 27 / 2\<rparr>]"]
      sample_aapl_rows
    by simp
  have b: "candlestick [] sample_table sample_history = candlestick [] [] sample_history"
    using candlestick_resolution [of sample_table sample_history "[]"] by blast
  have row1: "ticker (sample_table ! nat 1) = ''MSFT''" "company (sample_table ! nat 1) = ''Microsoft''"
    "(0::int) \<le> 1" "1 < int (length sample_table)"
    by (simp_all add: sample_table_def)
  have c: "\<exists>fig. candlestick [1] sample_table sample_history = Inr fig
      \<and> title_text (layout fig) = ''MSFT Microsoft Daily Price''
      \<and> trace fig = Candlestick [1, 2] [20, 21] [22, 23] [19, 20] [21, 45 / 2]"
    using candlestick_resolution [of sample_table sample_history sample_table _ 1
        "[\<lparr>Ticker = ''MSFT'', Date = 1, Open = 20, High = 22, Low = 19, Close = 21\<rparr>,
          \<lparr>Ticker = ''MSFT'', Date = 2, Open = 21, High = 23, Low = 20, Close = 45 / 2\<rparr>]"]
      sample_msft_rows row1
    by auto
  have "\<not> (0 \<le> (2::int) \<and> 2 < int (length sample_table))"
    by (simp add: sample_table_def)
  with candlestick_resolution [of sample_table sample_history sample_table _ 2]
  have d: "candlestick [2] sample_table sample_history = Inl KeyError"
    by blast
  from a b c d show ?thesis by (intro conjI)
qed

end
